theory Spec2Isabelle
  imports Main "HOL-Library.Multiset"
begin

section \<open>Tracer configuration aggregation of the CodeQL action\<close>

text \<open>
  The development follows \<^verbatim>\<open>tracerConfig\<close>, \<^verbatim>\<open>concatTracerConfigs\<close> and \<^verbatim>\<open>run\<close> of the
  init action and \<^verbatim>\<open>run\<close> of the finish action.

  Conventions of the embedding:
  \<^item> A JavaScript string is the list of bytes of its UTF-8 encoding, so
    \<^verbatim>\<open>new Buffer(s, 'utf8')\<close> is the identity and \<^verbatim>\<open>lineBuffer.length\<close> is \<^term>\<open>length\<close>.
  \<^item> An object of type \<^verbatim>\<open>{ [key: string]: string }\<close> is an association list with
    distinct keys, in the order in which \<^verbatim>\<open>Object.keys\<close>, \<^verbatim>\<open>Object.values\<close> and
    \<^verbatim>\<open>Object.entries\<close> enumerate it; the objects are used as dictionaries only
    (\<^verbatim>\<open>name in env\<close> is key membership).
  \<^item> \<^verbatim>\<open>undefined\<close> is \<^term>\<open>None\<close>.
  \<^item> A JavaScript number holding a count is an \<^typ>\<open>int\<close>, and \<^verbatim>\<open>NaN\<close> is \<^term>\<open>None\<close>.
  \<^item> A thrown exception is the left injection of a sum type.
\<close>

subsection \<open>Data model\<close>

record TracerConfig =
  spec :: "string option"
  env :: "(string \<times> string) list"

datatype error =
    IncompatibleValues string string string
  | TypeError
  | ReadError string
  | WriteError string
  | RangeError
  | ExecError
  | MissingEnvParam string
  | NoLanguages

text \<open>The message of the \<^verbatim>\<open>Error\<close> thrown by the merge loop.\<close>

definition incompatibleMessage :: "string \<Rightarrow> string \<Rightarrow> string \<Rightarrow> string" where
  "incompatibleMessage name old val =
     ''Incompatible values in environment parameter '' @ name @ '': '' @ old @ '' and '' @ val"

subsection \<open>The file system\<close>

text \<open>
  A path holds a regular file, holds nothing, or can be neither read nor written
  (a directory, a path without permission).
\<close>

datatype node = Absent | File string | Blocked

type_synonym filesystem = "string \<Rightarrow> node"

definition readFileSync :: "filesystem \<Rightarrow> string option \<Rightarrow> error + string" where
  "readFileSync fs p =
     (case p of
        None \<Rightarrow> Inl TypeError
      | Some q \<Rightarrow> (case fs q of File c \<Rightarrow> Inr c | Absent \<Rightarrow> Inl (ReadError q) | Blocked \<Rightarrow> Inl (ReadError q)))"

definition writeFileSync :: "filesystem \<Rightarrow> string \<Rightarrow> string \<Rightarrow> error + filesystem" where
  "writeFileSync fs p c =
     (case fs p of Blocked \<Rightarrow> Inl (WriteError p) | Absent \<Rightarrow> Inr (fs(p := File c)) | File old \<Rightarrow> Inr (fs(p := File c)))"

subsection \<open>Merging the environments\<close>

text \<open>
  The inner loop of the merge: \<^verbatim>\<open>for (let e of Object.entries(v.env))\<close>. The accumulator is
  the object \<^verbatim>\<open>env\<close> together with the counter \<^verbatim>\<open>envSize\<close>.
\<close>

fun mergeEntries :: "(string \<times> string) list \<times> nat \<Rightarrow> (string \<times> string) list
    \<Rightarrow> error + ((string \<times> string) list \<times> nat)" where
  "mergeEntries (acc, envSize) [] = Inr (acc, envSize)"
| "mergeEntries (acc, envSize) ((name, val) # es) =
     (case map_of acc name of
        Some old \<Rightarrow>
          (if old \<noteq> val then Inl (IncompatibleValues name old val)
           else mergeEntries (acc, envSize) es)
      | None \<Rightarrow> mergeEntries (acc @ [(name, val)], envSize + 1) es)"

text \<open>The outer loop: \<^verbatim>\<open>for (let v of Object.values(configs))\<close>.\<close>

fun mergeConfigs :: "(string \<times> string) list \<times> nat \<Rightarrow> TracerConfig list
    \<Rightarrow> error + ((string \<times> string) list \<times> nat)" where
  "mergeConfigs a [] = Inr a"
| "mergeConfigs a (v # vs) =
     (case mergeEntries a (env v) of
        Inl e \<Rightarrow> Inl e
      | Inr a' \<Rightarrow> mergeConfigs a' vs)"

subsection \<open>Ordering the languages\<close>

fun indexOf :: "'a list \<Rightarrow> 'a \<Rightarrow> nat option" where
  "indexOf [] x = None"
| "indexOf (y # ys) x = (if y = x then Some 0 else map_option Suc (indexOf ys x))"

text \<open>
  Lines 169 to 176: the key list, with the entry at \<^verbatim>\<open>cppIndex\<close> and the last entry
  exchanged when \<^verbatim>\<open>'cpp'\<close> is a key.
\<close>

definition languageOrder :: "string list \<Rightarrow> string list" where
  "languageOrder languages =
     (case indexOf languages ''cpp'' of
        None \<Rightarrow> languages
      | Some cppIndex \<Rightarrow>
          (let lastLang = languages ! (length languages - 1)
           in (languages[length languages - 1 := languages ! cppIndex])[cppIndex := lastLang]))"

subsection \<open>Text of the spec files\<close>

text \<open>\<^verbatim>\<open>text.split(/\r?\n/)\<close>: a separator is a line feed, or a carriage return with the line feed after it.\<close>

fun splitLines :: "string \<Rightarrow> string list" where
  "splitLines [] = [[]]"
| "splitLines (c # cs) =
     (if c = CHR 0x0A then [] # splitLines cs
      else if c = CHR 0x0D \<and> take 1 cs = [CHR 0x0A] then [] # splitLines (drop 1 cs)
      else (case splitLines cs of [] \<Rightarrow> [[c]] | l # ls \<Rightarrow> (c # l) # ls))"

text \<open>\<^verbatim>\<open>lines.join('\n')\<close>.\<close>

fun joinLines :: "string list \<Rightarrow> string" where
  "joinLines [] = []"
| "joinLines [l] = l"
| "joinLines (l # m # ls) = l @ CHR 0x0A # joinLines (m # ls)"

text \<open>
  \<^verbatim>\<open>parseInt(s, 10)\<close>: leading white space is skipped (tab, line feed, vertical tab, form
  feed, carriage return and space; the white space outside ASCII is left out of the
  model), a sign is read, and the longest prefix of decimal digits is the value; without
  a digit the result is \<^verbatim>\<open>NaN\<close>. An element read past the end of the array is \<^verbatim>\<open>undefined\<close>,
  which parses to \<^verbatim>\<open>NaN\<close>.
\<close>

definition isWhiteSpace :: "char \<Rightarrow> bool" where
  "isWhiteSpace c = (c \<in> set [CHR 0x09, CHR 0x0A, CHR 0x0B, CHR 0x0C, CHR 0x0D, CHR 0x20])"

definition isDigit :: "char \<Rightarrow> bool" where
  "isDigit c = (48 \<le> (of_char c :: nat) \<and> (of_char c :: nat) \<le> 57)"

definition digitsValue :: "string \<Rightarrow> nat" where
  "digitsValue ds = foldl (\<lambda>n c. 10 * n + (of_char c - 48)) 0 ds"

definition parseDigits :: "string \<Rightarrow> nat option" where
  "parseDigits s =
     (let ds = takeWhile isDigit s in if ds = [] then None else Some (digitsValue ds))"

definition parseInt :: "string option \<Rightarrow> int option" where
  "parseInt s =
     (case s of
        None \<Rightarrow> None
      | Some t \<Rightarrow>
          (case dropWhile isWhiteSpace t of
             [] \<Rightarrow> None
           | c # cs \<Rightarrow>
               (if c = CHR ''-'' then map_option (\<lambda>n. - int n) (parseDigits cs)
                else if c = CHR ''+'' then map_option int (parseDigits cs)
                else map_option int (parseDigits (c # cs)))))"

text \<open>\<^verbatim>\<open>lines[i]\<close>.\<close>

definition element :: "'a list \<Rightarrow> nat \<Rightarrow> 'a option" where
  "element xs i = (if i < length xs then Some (xs ! i) else None)"

text \<open>\<^verbatim>\<open>totalCount += count\<close> on numbers: \<^verbatim>\<open>NaN\<close> absorbs.\<close>

definition addNumber :: "int option \<Rightarrow> int option \<Rightarrow> int option" where
  "addNumber a b = (case a of None \<Rightarrow> None | Some x \<Rightarrow> (case b of None \<Rightarrow> None | Some y \<Rightarrow> Some (x + y)))"

text \<open>\<^verbatim>\<open>totalCount.toString(10)\<close> for an integer (below \<open>10\<^sup>2\<^sup>1\<close> in size) and for \<^verbatim>\<open>NaN\<close>.\<close>

function digitsOf :: "nat \<Rightarrow> string" where
  "digitsOf n = (if n < 10 then [char_of (48 + n)] else digitsOf (n div 10) @ [char_of (48 + n mod 10)])"
  by pat_completeness auto
termination
  by (relation "measure id") auto

definition numberToString :: "int option \<Rightarrow> string" where
  "numberToString v =
     (case v of
        None \<Rightarrow> ''NaN''
      | Some i \<Rightarrow> (if i < 0 then CHR ''-'' # digitsOf (nat (- i)) else digitsOf (nat i)))"

subsection \<open>Concatenating the spec files\<close>

text \<open>
  The loop of lines 178 to 185 over the ordered languages; the accumulator is
  \<^verbatim>\<open>totalLines\<close> with \<^verbatim>\<open>totalCount\<close>. \<^verbatim>\<open>configs[lang]\<close> of a missing key is \<^verbatim>\<open>undefined\<close>,
  whose \<^verbatim>\<open>.spec\<close> throws.
\<close>

fun readSpecs :: "filesystem \<Rightarrow> (string \<times> TracerConfig) list \<Rightarrow> string list
    \<Rightarrow> string list \<times> int option \<Rightarrow> error + (string list \<times> int option)" where
  "readSpecs fs configs [] a = Inr a"
| "readSpecs fs configs (lang # langs) (totalLines, totalCount) =
     (case map_of configs lang of
        None \<Rightarrow> Inl TypeError
      | Some c \<Rightarrow>
          (case readFileSync fs (spec c) of
             Inl e \<Rightarrow> Inl e
           | Inr content \<Rightarrow>
               (let lines = splitLines content;
                    count = parseInt (element lines 1)
                in readSpecs fs configs langs (totalLines @ drop 2 lines, addNumber totalCount count))))"

subsection \<open>The environment blob\<close>

text \<open>
  \<^verbatim>\<open>Buffer.alloc(4)\<close> followed by \<^verbatim>\<open>writeInt32LE(v, 0)\<close>: the four bytes of the two's
  complement of \<open>v\<close>, least significant first; a value outside the signed 32-bit range
  throws.
\<close>

definition writeInt32LE :: "int \<Rightarrow> error + string" where
  "writeInt32LE v =
     (if - (2 ^ 31) \<le> v \<and> v < 2 ^ 31 then
        (let u = v mod 2 ^ 32
         in Inr [char_of u, char_of (u div 256), char_of (u div 65536), char_of (u div 16777216)])
      else Inl RangeError)"

text \<open>The loop of lines 196 to 203 over \<^verbatim>\<open>Object.entries(env)\<close>.\<close>

fun encodeEntries :: "string \<Rightarrow> (string \<times> string) list \<Rightarrow> error + string" where
  "encodeEntries buffer [] = Inr buffer"
| "encodeEntries buffer ((key, val) # es) =
     (let lineBuffer = key @ ''='' @ val @ [CHR 0x00]
      in (case writeInt32LE (int (length lineBuffer)) of
            Inl e \<Rightarrow> Inl e
          | Inr sizeBuffer \<Rightarrow> encodeEntries (buffer @ sizeBuffer @ lineBuffer) es))"

definition encodeEnvironment :: "nat \<Rightarrow> (string \<times> string) list \<Rightarrow> error + string" where
  "encodeEnvironment envSize e =
     (case writeInt32LE (int envSize) of
        Inl err \<Rightarrow> Inl err
      | Inr buffer \<Rightarrow> encodeEntries buffer e)"

subsection \<open>The aggregator\<close>

text \<open>
  \<^verbatim>\<open>util.workspaceFolder()\<close> is outside the sources at hand; it is the parameter \<open>ws\<close>, an
  absolute normalised directory, so that \<^verbatim>\<open>path.resolve(ws, name)\<close> is \<open>ws/name\<close>.
\<close>

definition newLogFilePath :: "string \<Rightarrow> string" where
  "newLogFilePath ws = ws @ ''/compound-build-tracer.log''"

definition compoundSpec :: "string \<Rightarrow> string" where
  "compoundSpec ws = ws @ ''/compound-spec''"

definition envPath :: "string \<Rightarrow> string" where
  "envPath ws = compoundSpec ws @ ''.environment''"

definition concatTracerConfigs :: "string \<Rightarrow> filesystem \<Rightarrow> (string \<times> TracerConfig) list
    \<Rightarrow> (error + TracerConfig) \<times> filesystem" where
  "concatTracerConfigs ws fs configs =
     (case mergeConfigs ([], 0) (map snd configs) of
        Inl e \<Rightarrow> (Inl e, fs)
      | Inr (merged, envSize) \<Rightarrow>
          (case readSpecs fs configs (languageOrder (map fst configs)) ([], Some 0) of
             Inl e \<Rightarrow> (Inl e, fs)
           | Inr (totalLines, totalCount) \<Rightarrow>
               (let newSpecContent = newLogFilePath ws # numberToString totalCount # totalLines
                in (case writeFileSync fs (compoundSpec ws) (joinLines newSpecContent) of
                      Inl e \<Rightarrow> (Inl e, fs)
                    | Inr fs1 \<Rightarrow>
                        (case encodeEnvironment envSize merged of
                           Inl e \<Rightarrow> (Inl e, fs1)
                         | Inr buffer \<Rightarrow>
                             (case writeFileSync fs1 (envPath ws) buffer of
                                Inl e \<Rightarrow> (Inl e, fs1)
                              | Inr fs2 \<Rightarrow> (Inr \<lparr>spec = Some (compoundSpec ws), env = merged\<rparr>, fs2)))))))"

subsection \<open>The probe\<close>

text \<open>
  What the action does to the outside is an event; what the outside answers is a field
  of the record \<open>world\<close>: whether a call throws, the parsed content of the file
  \<^verbatim>\<open>working/env.tmp\<close> that \<^verbatim>\<open>database trace-command\<close> leaves for a database (\<^term>\<open>None\<close> when
  \<^verbatim>\<open>fs.readFileSync\<close> or \<^verbatim>\<open>JSON.parse\<close> throws), the content of a directory, an action input.
\<close>

datatype event =
    LoadConfig
  | DatabaseInit string
  | TraceCommand string
  | Aggregate
  | ExportVariable string string
  | DeleteEnv string
  | InjectTracer string
  | MkdirP string
  | ResolveExtractor string
  | Autobuild string
  | DatabaseFinalize string
  | DatabaseAnalyze string
  | Upload string

datatype platform = Darwin | Win32 | Linux

record world =
  abort :: bool
  fails :: "event \<Rightarrow> bool"
  envDump :: "string \<Rightarrow> (string \<times> string option) list option"
  readdir :: "string \<Rightarrow> string list option"
  getInput :: "string \<Rightarrow> string"
  platform :: platform
  workspaceFolder :: string
  codeqlCmd :: string
  codeqlTools :: string

definition CRITICAL_TRACER_VARS :: "string list" where
  "CRITICAL_TRACER_VARS =
     [''SEMMLE_PRELOAD_libtrace'', ''SEMMLE_RUNNER'', ''SEMMLE_COPY_EXECUTABLES_ROOT'',
      ''SEMMLE_DEPTRACE_SOCKET'', ''SEMMLE_JAVA_TOOL_OPTIONS'']"

definition startsWith :: "string \<Rightarrow> string \<Rightarrow> bool" where
  "startsWith s p = (take (length p) s = p)"

text \<open>The loop of lines 125 to 141 over the entries of the captured environment.\<close>

fun extractEnv :: "(string \<rightharpoonup> string) \<Rightarrow> (string \<times> string option) list \<Rightarrow> (string \<times> string) list" where
  "extractEnv processEnv [] = []"
| "extractEnv processEnv ((key, val) # es) =
     (if key = ''ODASA_TRACER_CONFIGURATION'' then extractEnv processEnv es
      else (case val of
              None \<Rightarrow> extractEnv processEnv es
            | Some v \<Rightarrow>
                (if processEnv key = None \<or> key \<in> set CRITICAL_TRACER_VARS \<or> startsWith key ''CODEQL_''
                 then (key, v) # extractEnv processEnv es
                 else extractEnv processEnv es)))"

text \<open>\<^verbatim>\<open>env['ODASA_TRACER_CONFIGURATION']\<close>: the value of the key, \<^verbatim>\<open>undefined\<close> without it.\<close>

definition property :: "(string \<times> 'a option) list \<Rightarrow> string \<Rightarrow> 'a option" where
  "property obj key = (case map_of obj key of None \<Rightarrow> None | Some v \<Rightarrow> v)"

definition tracerConfig :: "world \<Rightarrow> (string \<rightharpoonup> string) \<Rightarrow> string \<Rightarrow> error + TracerConfig" where
  "tracerConfig w processEnv database =
     (if fails w (TraceCommand database) then Inl ExecError
      else (case envDump w database of
              None \<Rightarrow> Inl (ReadError (database @ ''/working/env.tmp''))
            | Some dump \<Rightarrow>
                Inr \<lparr>spec = property dump ''ODASA_TRACER_CONFIGURATION'',
                     env = extractEnv processEnv dump\<rparr>))"

subsection \<open>The init action\<close>

text \<open>\<^verbatim>\<open>tracedLanguages[language] = config\<close>: a present key keeps its place.\<close>

fun setProperty :: "(string \<times> 'a) list \<Rightarrow> string \<Rightarrow> 'a \<Rightarrow> (string \<times> 'a) list" where
  "setProperty [] k v = [(k, v)]"
| "setProperty ((k', v') # obj) k v =
     (if k' = k then (k, v) # obj else (k', v') # setProperty obj k v)"

text \<open>\<^verbatim>\<open>path.join(dir, name)\<close> for a normalised directory.\<close>

definition pathJoin :: "string \<Rightarrow> string \<Rightarrow> string" where
  "pathJoin dir name = (if name = [] then dir else dir @ ''/'' @ name)"

text \<open>
  The loop of lines 272 to 284. The state is \<^verbatim>\<open>tracedLanguages\<close>, \<^verbatim>\<open>scannedLanguages\<close> and
  the calls made so far; an exception leaves the loop with the calls made so far.
\<close>

fun initLanguages :: "world \<Rightarrow> (string \<rightharpoonup> string) \<Rightarrow> string \<Rightarrow> string list
    \<Rightarrow> (string \<times> TracerConfig) list \<times> string list \<times> event list
    \<Rightarrow> error \<times> event list + (string \<times> TracerConfig) list \<times> string list \<times> event list" where
  "initLanguages w processEnv databaseFolder [] st = Inr st"
| "initLanguages w processEnv databaseFolder (language # rest) (tracedLanguages, scannedLanguages, evs) =
     (let languageDatabase = pathJoin databaseFolder language
      in if fails w (DatabaseInit languageDatabase) then Inl (ExecError, evs @ [DatabaseInit languageDatabase])
         else if language \<in> set [''cpp'', ''java'', ''csharp''] then
           (case tracerConfig w processEnv languageDatabase of
              Inl e \<Rightarrow> Inl (e, evs @ [DatabaseInit languageDatabase, TraceCommand languageDatabase])
            | Inr config \<Rightarrow>
                initLanguages w processEnv databaseFolder rest
                  (setProperty tracedLanguages language config, scannedLanguages,
                   evs @ [DatabaseInit languageDatabase, TraceCommand languageDatabase]))
         else
           initLanguages w processEnv databaseFolder rest
             (tracedLanguages, scannedLanguages @ [language], evs @ [DatabaseInit languageDatabase]))"

text \<open>\<^verbatim>\<open>scannedLanguages.join(',')\<close>.\<close>

fun joinComma :: "string list \<Rightarrow> string" where
  "joinComma [] = []"
| "joinComma [l] = l"
| "joinComma (l # m # ls) = l @ CHR '','' # joinComma (m # ls)"

datatype status = Succeeded | Returned | Failed error

text \<open>
  Lines 287 to 310: the guard on the number of traced languages, the aggregation and the
  publication of its result. \<^verbatim>\<open>if (mainTracerConfig.spec)\<close> holds for a non-empty string.
\<close>

definition publishTracer :: "world \<Rightarrow> filesystem \<Rightarrow> (string \<times> TracerConfig) list
    \<Rightarrow> error option \<times> filesystem \<times> event list" where
  "publishTracer w fs tracedLanguages =
     (let tracedLanguageKeys = map fst tracedLanguages
      in if length tracedLanguageKeys > 0 then
           (case concatTracerConfigs (workspaceFolder w) fs tracedLanguages of
              (Inl e, fs') \<Rightarrow> (Some e, fs', [Aggregate])
            | (Inr mainTracerConfig, fs') \<Rightarrow>
                (if spec mainTracerConfig \<noteq> None \<and> spec mainTracerConfig \<noteq> Some [] then
                   (let evs = Aggregate # map (\<lambda>entry. ExportVariable (fst entry) (snd entry)) (env mainTracerConfig)
                          @ [ExportVariable ''ODASA_TRACER_CONFIGURATION'' (the (spec mainTracerConfig))]
                    in (case platform w of
                          Darwin \<Rightarrow>
                            (None, fs', evs @ [ExportVariable ''DYLD_INSERT_LIBRARIES'' (codeqlTools w @ ''/osx64/libtrace.dylib'')])
                        | Win32 \<Rightarrow>
                            (if fails w (InjectTracer (the (spec mainTracerConfig))) then (Some ExecError, fs', evs)
                             else (None, fs', evs @ [InjectTracer (the (spec mainTracerConfig))]))
                        | Linux \<Rightarrow>
                            (None, fs', evs @ [ExportVariable ''LD_PRELOAD'' (codeqlTools w @ ''/linux64/${LIB}trace.so'')])))
                 else (None, fs', [Aggregate])))
         else (None, fs, []))"

text \<open>
  \<^verbatim>\<open>run\<close> of the init action, for the languages that \<^verbatim>\<open>util.getLanguages()\<close> returned:
  the early return, the failure without a language, and lines 264 to 315. The steps in
  between (loading the configuration, the include and exclude paths, setting up the
  tools, forwarding \<^verbatim>\<open>GOFLAGS\<close>) touch neither \<^verbatim>\<open>tracedLanguages\<close> nor the compound
  files and are left out. The \<^verbatim>\<open>catch\<close> turns an exception into \<^verbatim>\<open>core.setFailed\<close>. The
  events are the calls made, the throwing one included.
\<close>

definition run_init :: "world \<Rightarrow> (string \<rightharpoonup> string) \<Rightarrow> filesystem \<Rightarrow> string list
    \<Rightarrow> status \<times> filesystem \<times> event list" where
  "run_init w processEnv fs languages =
     (if abort w then (Returned, fs, [])
      else if length languages = 0 then (Failed NoLanguages, fs, [])
      else
        (let codeqlResultFolder = workspaceFolder w @ ''/codeql_results'';
             databaseFolder = codeqlResultFolder @ ''/db''
         in if fails w (MkdirP databaseFolder) then (Failed ExecError, fs, [MkdirP databaseFolder])
            else
              (case initLanguages w processEnv databaseFolder languages ([], [], [MkdirP databaseFolder]) of
                 Inl (e, evs) \<Rightarrow> (Failed e, fs, evs)
               | Inr (tracedLanguages, scannedLanguages, evs) \<Rightarrow>
                   (let evs1 = evs @ [ExportVariable ''CODEQL_ACTION_SCANNED_LANGUAGES'' (joinComma scannedLanguages)]
                    in (case publishTracer w fs tracedLanguages of
                          (Some e, fs', evs2) \<Rightarrow> (Failed e, fs', evs1 @ evs2)
                        | (None, fs', evs2) \<Rightarrow>
                            (Succeeded, fs',
                             evs1 @ evs2 @ [ExportVariable ''CODEQL_ACTION_RESULTS'' codeqlResultFolder,
                                            ExportVariable ''CODEQL_ACTION_CMD'' (codeqlCmd w)]))))))"

subsection \<open>The finish action\<close>

text \<open>\<^verbatim>\<open>s.split(',')\<close>.\<close>

fun splitComma :: "string \<Rightarrow> string list" where
  "splitComma [] = [[]]"
| "splitComma (c # cs) =
     (if c = CHR '','' then [] # splitComma cs
      else (case splitComma cs of [] \<Rightarrow> [[c]] | l # ls \<Rightarrow> (c # l) # ls))"

text \<open>A sequence of external calls, each awaited: the first that throws ends it.\<close>

fun execAll :: "world \<Rightarrow> event list \<Rightarrow> event list \<Rightarrow> error option \<times> event list" where
  "execAll w [] evs = (None, evs)"
| "execAll w (c # cs) evs =
     (if fails w c then (Some ExecError, evs @ [c]) else execAll w cs (evs @ [c]))"

text \<open>
  \<^verbatim>\<open>finalizeDatabaseCreation\<close>: for every scanned language the extractor is resolved and its
  autobuild script is run under \<^verbatim>\<open>database trace-command\<close>; then every database is
  finalized. A variable that is unset or empty is falsy.
\<close>

definition finalizeDatabaseCreation :: "world \<Rightarrow> (string \<rightharpoonup> string) \<Rightarrow> string \<Rightarrow> event list
    \<Rightarrow> error option \<times> event list" where
  "finalizeDatabaseCreation w processEnv databaseFolder evs =
     (let scanned =
            (case processEnv ''CODEQL_ACTION_SCANNED_LANGUAGES'' of
               None \<Rightarrow> []
             | Some scannedLanguages \<Rightarrow> (if scannedLanguages = [] then [] else splitComma scannedLanguages));
          languages =
            (case processEnv ''CODEQL_ACTION_LANGUAGES'' of
               None \<Rightarrow> []
             | Some l \<Rightarrow> l)
      in execAll w
           (concat (map (\<lambda>language. [ResolveExtractor language, Autobuild (pathJoin databaseFolder language)]) scanned)
            @ map (\<lambda>language. DatabaseFinalize (pathJoin databaseFolder language)) (splitComma languages))
           evs)"

text \<open>\<^verbatim>\<open>runQueries\<close>: one \<^verbatim>\<open>database analyze\<close> for every entry of the database folder.\<close>

definition runQueries :: "world \<Rightarrow> string \<Rightarrow> event list \<Rightarrow> error option \<times> event list" where
  "runQueries w databaseFolder evs =
     (case readdir w databaseFolder of
        None \<Rightarrow> (Some (ReadError databaseFolder), evs)
      | Some databases \<Rightarrow>
          execAll w (map (\<lambda>database. DatabaseAnalyze (pathJoin databaseFolder database)) databases) evs)"

text \<open>
  \<^verbatim>\<open>util.get_required_env_param\<close> is outside the sources at hand: it returns the value of
  the variable and throws when the variable is unset or empty.
\<close>

definition get_required_env_param :: "(string \<rightharpoonup> string) \<Rightarrow> string \<Rightarrow> error + string" where
  "get_required_env_param processEnv name =
     (case processEnv name of
        None \<Rightarrow> Inl (MissingEnvParam name)
      | Some v \<Rightarrow> (if v = [] then Inl (MissingEnvParam name) else Inr v))"

text \<open>
  \<^verbatim>\<open>run\<close> of the finish action. The state is \<^verbatim>\<open>process.env\<close> and the calls made;
  \<^verbatim>\<open>core.exportVariable\<close> assigns the variable in \<^verbatim>\<open>process.env\<close>.
\<close>

definition run_finish :: "world \<Rightarrow> (string \<rightharpoonup> string) \<Rightarrow> status \<times> (string \<rightharpoonup> string) \<times> event list" where
  "run_finish w processEnv =
     (if abort w then (Returned, processEnv, [])
      else if fails w LoadConfig then (Failed ExecError, processEnv, [LoadConfig])
      else
        (let env1 = processEnv(''ODASA_TRACER_CONFIGURATION'' \<mapsto> []);
             env2 = env1(''ODASA_TRACER_CONFIGURATION'' := None);
             evs = [LoadConfig, ExportVariable ''ODASA_TRACER_CONFIGURATION'' [],
                    DeleteEnv ''ODASA_TRACER_CONFIGURATION'']
         in (case get_required_env_param env2 ''CODEQL_ACTION_CMD'' of
               Inl e \<Rightarrow> (Failed e, env2, evs)
             | Inr cmd \<Rightarrow>
                 (case get_required_env_param env2 ''CODEQL_ACTION_DATABASE_DIR'' of
                    Inl e \<Rightarrow> (Failed e, env2, evs)
                  | Inr databaseFolder \<Rightarrow>
                      (let sarifFolder = getInput w ''output''
                       in if fails w (MkdirP sarifFolder) then (Failed ExecError, env2, evs @ [MkdirP sarifFolder])
                          else
                            (case finalizeDatabaseCreation w env2 databaseFolder (evs @ [MkdirP sarifFolder]) of
                               (Some e, evs1) \<Rightarrow> (Failed e, env2, evs1)
                             | (None, evs1) \<Rightarrow>
                                 (case runQueries w databaseFolder evs1 of
                                    (Some e, evs2) \<Rightarrow> (Failed e, env2, evs2)
                                  | (None, evs2) \<Rightarrow>
                                      (if ''true'' = getInput w ''upload'' then
                                         (if fails w (Upload sarifFolder)
                                          then (Failed ExecError, env2, evs2 @ [Upload sarifFolder])
                                          else (Succeeded, env2, evs2 @ [Upload sarifFolder]))
                                       else (Succeeded, env2, evs2)))))))))"

subsection \<open>Reading the environment blob\<close>

text \<open>
  Modelled from the spec: the reader of the environment blob, which belongs to the
  native tracer and is not among the sources. It reads a 4-byte little-endian signed
  count, then for each entry a 4-byte little-endian signed length \<open>L\<close> and \<open>L\<close> bytes
  \<^verbatim>\<open>key=value\0\<close>; the key ends at the first \<^verbatim>\<open>=\<close>. A blob of another shape is rejected.
\<close>

definition readInt32LE :: "string \<Rightarrow> (int \<times> string) option" where
  "readInt32LE bs =
     (case bs of
        a # b # c # d # rest \<Rightarrow>
          (let u = of_char a + 256 * of_char b + 65536 * of_char c + 16777216 * of_char d
           in Some (if (2::int) ^ 31 \<le> u then u - 2 ^ 32 else u, rest))
      | _ \<Rightarrow> None)"

definition decodeRecord :: "string \<Rightarrow> (string \<times> string) option" where
  "decodeRecord r =
     (if r \<noteq> [] \<and> last r = CHR 0x00 \<and> CHR ''='' \<in> set (butlast r) then
        Some (takeWhile (\<lambda>c. c \<noteq> CHR ''='') (butlast r), tl (dropWhile (\<lambda>c. c \<noteq> CHR ''='') (butlast r)))
      else None)"

fun decodeEntries :: "nat \<Rightarrow> string \<Rightarrow> (string \<times> string) list option" where
  "decodeEntries 0 bs = (if bs = [] then Some [] else None)"
| "decodeEntries (Suc n) bs =
     (case readInt32LE bs of
        None \<Rightarrow> None
      | Some (l, rest) \<Rightarrow>
          (if l < 0 \<or> length rest < nat l then None
           else (case decodeRecord (take (nat l) rest) of
                   None \<Rightarrow> None
                 | Some kv \<Rightarrow> map_option ((#) kv) (decodeEntries n (drop (nat l) rest)))))"

definition decodeEnvironment :: "string \<Rightarrow> (string \<times> string) list option" where
  "decodeEnvironment bs =
     (case readInt32LE bs of
        None \<Rightarrow> None
      | Some (n, rest) \<Rightarrow> (if n < 0 then None else decodeEntries (nat n) rest))"

subsection \<open>Notions used by the properties\<close>


text \<open>All entries of all environments, in the order in which the merge visits them.\<close>

definition allEntries :: "TracerConfig list \<Rightarrow> (string \<times> string) list" where
  "allEntries vs = concat (map env vs)"





text \<open>The calls of database finalization and of query analysis.\<close>

fun stageEvent :: "event \<Rightarrow> bool" where
  "stageEvent (ResolveExtractor l) = True"
| "stageEvent (Autobuild d) = True"
| "stageEvent (DatabaseFinalize d) = True"
| "stageEvent (DatabaseAnalyze d) = True"
| "stageEvent ev = False"

subsection \<open>Inputs for the examples\<close>

text \<open>
  The scenario of the specification: a language with two blocks and \<open>X = 1\<close>, and
  \<^verbatim>\<open>cpp\<close> with one block and \<open>X = 1\<close>, \<open>Y = 2\<close>; then \<^verbatim>\<open>cpp\<close> with \<open>X = 2\<close>.
\<close>

definition langA :: TracerConfig where
  "langA = \<lparr>spec = Some ''/db/java/spec'', env = [(''X'', ''1'')]\<rparr>"

definition langB :: TracerConfig where
  "langB = \<lparr>spec = Some ''/db/cpp/spec'', env = [(''X'', ''1''), (''Y'', ''2'')]\<rparr>"



definition noFiles :: filesystem where
  "noFiles = (\<lambda>p. Absent)"

definition scenarioFiles :: filesystem where
  "scenarioFiles =
     noFiles(''/db/java/spec'' := File (joinLines [''java.log'', ''2'', ''l1'', ''l2'']),
             ''/db/cpp/spec'' := File (joinLines [''cpp.log'', ''1'', ''j1'']),
             ''/db/csharp/spec'' := File (joinLines [''csharp.log'', ''0'']))"



text \<open>
  A world in which no call throws: the probe captures an environment without
  \<^verbatim>\<open>ODASA_TRACER_CONFIGURATION\<close>, and the database folder holds one database.
\<close>

definition quietWorld :: world where
  "quietWorld =
     \<lparr>abort = False,
      fails = (\<lambda>ev. False),
      envDump = (\<lambda>database. Some [(''PATH'', Some ''/usr/bin''), (''CODEQL_DIST'', Some ''/opt/codeql'')]),
      readdir = (\<lambda>dir. Some [''java'']),
      getInput = (\<lambda>name. if name = ''output'' then ''/w/sarif'' else ''false''),
      platform = Linux,
      workspaceFolder = ''/w'',
      codeqlCmd = ''/opt/codeql/codeql'',
      codeqlTools = ''/opt/codeql/tools''\<rparr>"

definition ambientEnv :: "string \<rightharpoonup> string" where
  "ambientEnv = [''PATH'' \<mapsto> ''/usr/bin'']"

text \<open>The environment that the init action and a traced build leave for the finish action.\<close>

definition finishEnv :: "string \<rightharpoonup> string" where
  "finishEnv =
     [''CODEQL_ACTION_CMD'' \<mapsto> ''/opt/codeql/codeql'',
      ''CODEQL_ACTION_DATABASE_DIR'' \<mapsto> ''/w/codeql_results/db'',
      ''CODEQL_ACTION_LANGUAGES'' \<mapsto> ''java'',
      ''ODASA_TRACER_CONFIGURATION'' \<mapsto> ''/w/compound-spec'']"

section \<open>Auxiliary facts\<close>









lemma mergeEntries_Inr:
  "mergeEntries (acc, k) es = Inr (acc', k') \<Longrightarrow> distinct (map fst acc) \<Longrightarrow>
     distinct (map fst acc') \<and> set acc' = set acc \<union> set es \<and> k' + length acc = k + length acc'"
proof (induction es arbitrary: acc k)
  case Nil
  then show ?case by simp
next
  case (Cons e es)
  obtain name val where e: "e = (name, val)" by (cases e)
  show ?case
  proof (cases "map_of acc name")
    case None
    then have nk: "name \<notin> fst ` set acc" by (simp add: map_of_eq_None_iff)
    from Cons.prems None e have m: "mergeEntries (acc @ [(name, val)], k + 1) es = Inr (acc', k')"
      by simp
    have "distinct (map fst (acc @ [(name, val)]))" using nk Cons.prems(2) by simp
    from Cons.IH[OF m this] show ?thesis using e by auto
  next
    case (Some old)
    with Cons.prems e have ov: "old = val" and m: "mergeEntries (acc, k) es = Inr (acc', k')"
      by (auto split: if_splits)
    from Some ov have "(name, val) \<in> set acc" by (simp add: map_of_SomeD)
    with Cons.IH[OF m Cons.prems(2)] e show ?thesis by auto
  qed
qed


lemma mergeConfigs_Inr:
  "mergeConfigs (acc, k) vs = Inr (acc', k') \<Longrightarrow> distinct (map fst acc) \<Longrightarrow>
     distinct (map fst acc') \<and> set acc' = set acc \<union> set (allEntries vs) \<and> k' + length acc = k + length acc'"
proof (induction vs arbitrary: acc k)
  case Nil
  then show ?case by (simp add: allEntries_def)
next
  case (Cons v vs)
  from Cons.prems(1) obtain acc1 k1 where
    1: "mergeEntries (acc, k) (env v) = Inr (acc1, k1)" and 2: "mergeConfigs (acc1, k1) vs = Inr (acc', k')"
    by (auto split: sum.splits)
  from mergeEntries_Inr[OF 1 Cons.prems(2)] have
    a: "distinct (map fst acc1)" "set acc1 = set acc \<union> set (env v)" "k1 + length acc = k + length acc1"
    by auto
  from Cons.IH[OF 2 a(1)] a show ?case by (auto simp: allEntries_def)
qed







lemma le_bytes_value:
  fixes v :: int
  assumes "0 \<le> v" "v < 2 ^ 31"
  shows "v mod 256 + 256 * (v div 256 mod 256) + 65536 * (v div 65536 mod 256)
           + 16777216 * (v div 16777216 mod 256) = v"
proof -
  have "v div 16777216 < 128" using assms by simp
  moreover have "0 \<le> v div 16777216" using assms by simp
  ultimately have a: "v div 16777216 mod 256 = v div 16777216" by simp
  have "v div (65536 * 256) = v div 65536 div 256" by (rule zdiv_zmult2_eq) simp
  then have b: "v div 16777216 = v div 65536 div 256" by simp
  have "v div (256 * 256) = v div 256 div 256" by (rule zdiv_zmult2_eq) simp
  then have c: "v div 65536 = v div 256 div 256" by simp
  have d: "v div 65536 = 256 * (v div 65536 div 256) + v div 65536 mod 256" by simp
  have e: "v div 256 = 256 * (v div 256 div 256) + v div 256 mod 256" by simp
  have f: "v = 256 * (v div 256) + v mod 256" by simp
  from a b c d e f show ?thesis by linarith
qed

lemma of_char_char_of_int: "(of_char (char_of (x::int)) :: int) = x mod 256"
  by simp

lemma read_write_Int32LE:
  assumes "0 \<le> v" "v < 2 ^ 31"
  shows "\<exists>bs. writeInt32LE v = Inr bs \<and> length bs = 4 \<and> (\<forall>rest. readInt32LE (bs @ rest) = Some (v, rest))"
proof -
  have m: "v mod 2 ^ 32 = v" using assms by simp
  have w: "writeInt32LE v = Inr [char_of v, char_of (v div 256), char_of (v div 65536), char_of (v div 16777216)]"
    using assms unfolding writeInt32LE_def Let_def m by simp
  have u: "(of_char (char_of v :: char) :: int) + 256 * of_char (char_of (v div 256) :: char)
             + 65536 * of_char (char_of (v div 65536) :: char)
             + 16777216 * of_char (char_of (v div 16777216) :: char) = v"
    unfolding of_char_char_of_int by (rule le_bytes_value[OF assms])
  have nb: "\<not> (2::int) ^ 31 \<le> v" using assms by simp
  have r: "readInt32LE ([char_of v, char_of (v div 256), char_of (v div 65536), char_of (v div 16777216)] @ rest)
            = Some (v, rest)" for rest
    unfolding readInt32LE_def Let_def append_Cons append_Nil list.case u if_not_P[OF nb] ..
  show ?thesis using w r by simp
qed


lemma writeInt32LE_Inr:
  assumes "writeInt32LE (int n) = Inr bs"
  shows "\<forall>rest. readInt32LE (bs @ rest) = Some (int n, rest)"
proof -
  have "int n < 2 ^ 31" using assms by (auto simp: writeInt32LE_def split: if_splits)
  with read_write_Int32LE[of "int n"] assms show ?thesis by auto
qed

lemma decodeRecord_line:
  assumes "CHR ''='' \<notin> set key"
  shows "decodeRecord (key @ ''='' @ val @ [CHR 0x00]) = Some (key, val)"
proof -
  have b: "butlast (key @ ''='' @ val @ [CHR 0x00]) = key @ CHR ''='' # val"
    by (simp add: butlast_append)
  have k: "\<And>x. x \<in> set key \<Longrightarrow> x \<noteq> CHR ''=''"
    using assms by blast
  have "takeWhile (\<lambda>c. c \<noteq> CHR ''='') (key @ CHR ''='' # val)
          = key @ takeWhile (\<lambda>c. c \<noteq> CHR ''='') (CHR ''='' # val)"
    by (rule takeWhile_append2) (rule k)
  then have t: "takeWhile (\<lambda>c. c \<noteq> CHR ''='') (key @ CHR ''='' # val) = key"
    by simp
  have "dropWhile (\<lambda>c. c \<noteq> CHR ''='') (key @ CHR ''='' # val)
          = dropWhile (\<lambda>c. c \<noteq> CHR ''='') (CHR ''='' # val)"
    by (rule dropWhile_append2) (rule k)
  then have d: "dropWhile (\<lambda>c. c \<noteq> CHR ''='') (key @ CHR ''='' # val) = CHR ''='' # val"
    by simp
  show ?thesis unfolding decodeRecord_def b t d by simp
qed

lemma encodeEntries_decode:
  "encodeEntries buffer es = Inr b \<Longrightarrow> \<forall>(key, val) \<in> set es. CHR ''='' \<notin> set key \<Longrightarrow>
     \<exists>t. b = buffer @ t \<and> decodeEntries (length es) t = Some es"
proof (induction es arbitrary: buffer)
  case Nil
  then show ?case by simp
next
  case (Cons e es)
  obtain key val where e: "e = (key, val)" by (cases e)
  define line where "line = key @ ''='' @ val @ [CHR 0x00]"
  from Cons.prems(1) e obtain sizeBuffer where
    w: "writeInt32LE (int (length line)) = Inr sizeBuffer" and
    r: "encodeEntries (buffer @ sizeBuffer @ line) es = Inr b"
    by (auto simp: line_def Let_def split: sum.splits)
  from Cons.prems(2) e have k: "CHR ''='' \<notin> set key" and ks: "\<forall>(key, val) \<in> set es. CHR ''='' \<notin> set key"
    by auto
  from Cons.IH[OF r ks] obtain t where t: "b = (buffer @ sizeBuffer @ line) @ t"
    and d: "decodeEntries (length es) t = Some es" by blast
  have rd: "readInt32LE (sizeBuffer @ line @ t) = Some (int (length line), line @ t)"
    using writeInt32LE_Inr[OF w] by blast
  have dr: "decodeRecord line = Some (key, val)"
    unfolding line_def by (rule decodeRecord_line[OF k])
  have "decodeEntries (Suc (length es)) (sizeBuffer @ line @ t) = Some ((key, val) # es)"
    by (simp add: rd dr d)
  with t e show ?case by simp
qed

lemma encodeEnvironment_decode:
  assumes "encodeEnvironment (length es) es = Inr b" and "\<forall>(key, val) \<in> set es. CHR ''='' \<notin> set key"
  shows "decodeEnvironment b = Some es"
proof -
  from assms(1) obtain buffer where w: "writeInt32LE (int (length es)) = Inr buffer"
    and r: "encodeEntries buffer es = Inr b"
    by (auto simp: encodeEnvironment_def split: sum.splits)
  from encodeEntries_decode[OF r assms(2)] obtain t where t: "b = buffer @ t"
    and d: "decodeEntries (length es) t = Some es" by blast
  have "readInt32LE (buffer @ t) = Some (int (length es), t)"
    using writeInt32LE_Inr[OF w] by blast
  then show ?thesis by (simp add: decodeEnvironment_def t d)
qed

lemma writeFileSync_Inr: "writeFileSync fs p c = Inr fs' \<Longrightarrow> fs' = fs(p := File c) \<and> fs p \<noteq> Blocked"
  by (auto simp: writeFileSync_def split: node.splits)


lemma envPath_neq: "envPath ws \<noteq> compoundSpec ws"
  by (simp add: envPath_def)

lemma concat_success:
  assumes "concatTracerConfigs ws fs configs = (Inr r, fs')"
  shows "\<exists>merged envSize totalLines totalCount buffer.
           mergeConfigs ([], 0) (map snd configs) = Inr (merged, envSize)
         \<and> readSpecs fs configs (languageOrder (map fst configs)) ([], Some 0) = Inr (totalLines, totalCount)
         \<and> encodeEnvironment envSize merged = Inr buffer
         \<and> fs (compoundSpec ws) \<noteq> Blocked \<and> fs (envPath ws) \<noteq> Blocked
         \<and> fs' = fs(compoundSpec ws := File (joinLines (newLogFilePath ws # numberToString totalCount # totalLines)),
                    envPath ws := File buffer)
         \<and> r = \<lparr>spec = Some (compoundSpec ws), env = merged\<rparr>"
proof -
  from assms obtain merged envSize where
    m: "mergeConfigs ([], 0) (map snd configs) = Inr (merged, envSize)"
    by (auto simp: concatTracerConfigs_def split: sum.splits)
  from assms m obtain totalLines totalCount where
    rs: "readSpecs fs configs (languageOrder (map fst configs)) ([], Some 0) = Inr (totalLines, totalCount)"
    by (auto simp: concatTracerConfigs_def split: sum.splits)
  define content where "content = joinLines (newLogFilePath ws # numberToString totalCount # totalLines)"
  from assms m rs obtain fs1 where
    w1: "writeFileSync fs (compoundSpec ws) content = Inr fs1"
    by (auto simp: concatTracerConfigs_def content_def split: sum.splits)
  from assms m rs w1 obtain buffer where
    en: "encodeEnvironment envSize merged = Inr buffer"
    by (auto simp: concatTracerConfigs_def content_def split: sum.splits)
  from assms m rs w1 en have
    w2: "writeFileSync fs1 (envPath ws) buffer = Inr fs'" and r: "r = \<lparr>spec = Some (compoundSpec ws), env = merged\<rparr>"
    by (auto simp: concatTracerConfigs_def content_def split: sum.splits)
  from writeFileSync_Inr[OF w1] writeFileSync_Inr[OF w2] envPath_neq[of ws]
  have "fs (compoundSpec ws) \<noteq> Blocked" "fs (envPath ws) \<noteq> Blocked"
    "fs' = fs(compoundSpec ws := File content, envPath ws := File buffer)"
    by auto
  with m rs en r show ?thesis unfolding content_def by blast
qed



lemma foldl_addNumber_None: "foldl addNumber None cs = None"
  by (induction cs) (simp_all add: addNumber_def)








lemma initLanguages_untraced:
  assumes "\<forall>l \<in> set languages. l \<notin> set [''cpp'', ''java'', ''csharp'']"
  shows "(case initLanguages w processEnv databaseFolder languages (tracedLanguages, scannedLanguages, evs) of
            Inl (e, evs') \<Rightarrow> set evs' \<subseteq> set evs \<union> range DatabaseInit
          | Inr (tracedLanguages', scannedLanguages', evs') \<Rightarrow>
              tracedLanguages' = tracedLanguages \<and> set evs' \<subseteq> set evs \<union> range DatabaseInit)"
  using assms
proof (induction languages arbitrary: scannedLanguages evs)
  case Nil
  then show ?case by simp
next
  case (Cons language rest)
  from Cons.prems have nt: "language \<notin> set [''cpp'', ''java'', ''csharp'']"
    and r: "\<forall>l \<in> set rest. l \<notin> set [''cpp'', ''java'', ''csharp'']" by simp_all
  show ?case
  proof (cases "fails w (DatabaseInit (pathJoin databaseFolder language))")
    case True
    then show ?thesis by (auto simp: Let_def)
  next
    case False
    have s: "initLanguages w processEnv databaseFolder (language # rest) (tracedLanguages, scannedLanguages, evs)
        = initLanguages w processEnv databaseFolder rest
            (tracedLanguages, scannedLanguages @ [language], evs @ [DatabaseInit (pathJoin databaseFolder language)])"
      using False nt by (simp add: Let_def)
    from Cons.IH[OF r, where scannedLanguages = "scannedLanguages @ [language]"
        and evs = "evs @ [DatabaseInit (pathJoin databaseFolder language)]"]
    show ?thesis unfolding s by (auto split: sum.splits)
  qed
qed

lemma execAll_events:
  "execAll w cs evs = (r, evs') \<Longrightarrow> \<exists>t. evs' = evs @ t \<and> set t \<subseteq> set cs"
proof (induction cs arbitrary: evs)
  case Nil
  then show ?case by simp
next
  case (Cons c cs)
  show ?case
  proof (cases "fails w c")
    case True
    with Cons.prems show ?thesis by auto
  next
    case False
    with Cons.prems have "execAll w cs (evs @ [c]) = (r, evs')" by simp
    from Cons.IH[OF this] show ?thesis by auto
  qed
qed

lemma finalizeDatabaseCreation_events:
  assumes "finalizeDatabaseCreation w processEnv databaseFolder evs = (r, evs')"
  shows "\<exists>t. evs' = evs @ t \<and> (\<forall>ev \<in> set t. \<forall>n. ev \<noteq> DeleteEnv n)"
proof -
  from assms obtain cs where
    x: "execAll w cs evs = (r, evs')" and c: "\<forall>ev \<in> set cs. \<forall>n. ev \<noteq> DeleteEnv n"
    unfolding finalizeDatabaseCreation_def Let_def by fastforce
  from execAll_events[OF x] c show ?thesis by blast
qed

lemma runQueries_events:
  assumes "runQueries w databaseFolder evs = (r, evs')"
  shows "\<exists>t. evs' = evs @ t \<and> (\<forall>ev \<in> set t. \<forall>n. ev \<noteq> DeleteEnv n)"
proof (cases "readdir w databaseFolder")
  case None
  with assms show ?thesis by (simp add: runQueries_def)
next
  case (Some databases)
  with assms have x: "execAll w (map (\<lambda>database. DatabaseAnalyze (pathJoin databaseFolder database)) databases) evs = (r, evs')"
    by (simp add: runQueries_def)
  from execAll_events[OF x] show ?thesis by fastforce
qed

lemma run_finish_shape:
  assumes "run_finish w processEnv = (st, env', evs)"
  shows "(st = Returned \<and> evs = [] \<and> env' = processEnv)
       \<or> (st = Failed ExecError \<and> evs = [LoadConfig] \<and> env' = processEnv)
       \<or> (\<exists>rest. evs = [LoadConfig, ExportVariable ''ODASA_TRACER_CONFIGURATION'' [],
                           DeleteEnv ''ODASA_TRACER_CONFIGURATION''] @ rest
                 \<and> (\<forall>ev \<in> set rest. \<forall>n. ev \<noteq> DeleteEnv n)
                 \<and> env' = processEnv(''ODASA_TRACER_CONFIGURATION'' := None))"
proof (cases "abort w \<or> fails w LoadConfig")
  case True
  with assms show ?thesis by (auto simp: run_finish_def split: if_splits)
next
  case False
  define env2 where
    "env2 = (processEnv(''ODASA_TRACER_CONFIGURATION'' \<mapsto> []))(''ODASA_TRACER_CONFIGURATION'' := None)"
  define evs0 where "evs0 = [LoadConfig, ExportVariable ''ODASA_TRACER_CONFIGURATION'' [],
                           DeleteEnv ''ODASA_TRACER_CONFIGURATION'']"
  define sarifFolder where "sarifFolder = getInput w ''output''"
  have e2: "env2 = processEnv(''ODASA_TRACER_CONFIGURATION'' := None)"
    by (simp add: env2_def)
  from assms have "(if abort w then (Returned, processEnv, [])
      else if fails w LoadConfig then (Failed ExecError, processEnv, [LoadConfig])
      else (case get_required_env_param env2 ''CODEQL_ACTION_CMD'' of
               Inl e \<Rightarrow> (Failed e, env2, evs0)
             | Inr cmd \<Rightarrow>
                 (case get_required_env_param env2 ''CODEQL_ACTION_DATABASE_DIR'' of
                    Inl e \<Rightarrow> (Failed e, env2, evs0)
                  | Inr databaseFolder \<Rightarrow>
                      (if fails w (MkdirP sarifFolder) then (Failed ExecError, env2, evs0 @ [MkdirP sarifFolder])
                          else
                            (case finalizeDatabaseCreation w env2 databaseFolder (evs0 @ [MkdirP sarifFolder]) of
                               (Some e, evs1) \<Rightarrow> (Failed e, env2, evs1)
                             | (None, evs1) \<Rightarrow>
                                 (case runQueries w databaseFolder evs1 of
                                    (Some e, evs2) \<Rightarrow> (Failed e, env2, evs2)
                                  | (None, evs2) \<Rightarrow>
                                      (if ''true'' = getInput w ''upload'' then
                                         (if fails w (Upload sarifFolder)
                                          then (Failed ExecError, env2, evs2 @ [Upload sarifFolder])
                                          else (Succeeded, env2, evs2 @ [Upload sarifFolder]))
                                       else (Succeeded, env2, evs2)))))))) = (st, env', evs)"
    unfolding run_finish_def Let_def env2_def evs0_def sarifFolder_def .
  with False have a: "(case get_required_env_param env2 ''CODEQL_ACTION_CMD'' of
               Inl e \<Rightarrow> (Failed e, env2, evs0)
             | Inr cmd \<Rightarrow>
                 (case get_required_env_param env2 ''CODEQL_ACTION_DATABASE_DIR'' of
                    Inl e \<Rightarrow> (Failed e, env2, evs0)
                  | Inr databaseFolder \<Rightarrow>
                      (if fails w (MkdirP sarifFolder) then (Failed ExecError, env2, evs0 @ [MkdirP sarifFolder])
                          else
                            (case finalizeDatabaseCreation w env2 databaseFolder (evs0 @ [MkdirP sarifFolder]) of
                               (Some e, evs1) \<Rightarrow> (Failed e, env2, evs1)
                             | (None, evs1) \<Rightarrow>
                                 (case runQueries w databaseFolder evs1 of
                                    (Some e, evs2) \<Rightarrow> (Failed e, env2, evs2)
                                  | (None, evs2) \<Rightarrow>
                                      (if ''true'' = getInput w ''upload'' then
                                         (if fails w (Upload sarifFolder)
                                          then (Failed ExecError, env2, evs2 @ [Upload sarifFolder])
                                          else (Succeeded, env2, evs2 @ [Upload sarifFolder]))
                                       else (Succeeded, env2, evs2))))))) = (st, env', evs)"
    by simp
  have goal: "?thesis" if "env' = env2" "evs = evs0 @ rest" "\<forall>ev \<in> set rest. \<forall>n. ev \<noteq> DeleteEnv n" for rest
    using that unfolding e2 evs0_def by blast
  show ?thesis
  proof (cases "get_required_env_param env2 ''CODEQL_ACTION_CMD''")
    case (Inl e)
    with a have "env' = env2" "evs = evs0 @ []" by simp_all
    then show ?thesis by (rule goal) simp
  next
    case (Inr cmd)
    note g1 = Inr
    show ?thesis
    proof (cases "get_required_env_param env2 ''CODEQL_ACTION_DATABASE_DIR''")
      case (Inl e)
      with a g1 have "env' = env2" "evs = evs0 @ []" by simp_all
      then show ?thesis by (rule goal) simp
    next
      case (Inr databaseFolder)
      note g2 = Inr
      show ?thesis
      proof (cases "fails w (MkdirP sarifFolder)")
        case True
        with a g1 g2 have "env' = env2" "evs = evs0 @ [MkdirP sarifFolder]" by simp_all
        then show ?thesis by (rule goal) simp
      next
        case mk: False
        obtain r1 evs1 where
          fin: "finalizeDatabaseCreation w env2 databaseFolder (evs0 @ [MkdirP sarifFolder]) = (r1, evs1)"
          by (cases "finalizeDatabaseCreation w env2 databaseFolder (evs0 @ [MkdirP sarifFolder])")
        from finalizeDatabaseCreation_events[OF fin] obtain t1 where
          t1: "evs1 = (evs0 @ [MkdirP sarifFolder]) @ t1" "\<forall>ev \<in> set t1. \<forall>n. ev \<noteq> DeleteEnv n" by blast
        obtain r2 evs2 where rq: "runQueries w databaseFolder evs1 = (r2, evs2)"
          by (cases "runQueries w databaseFolder evs1")
        from runQueries_events[OF rq] obtain t2 where
          t2: "evs2 = evs1 @ t2" "\<forall>ev \<in> set t2. \<forall>n. ev \<noteq> DeleteEnv n" by blast
        from a g1 g2 mk fin rq
        have "env' = env2 \<and> (evs = evs1 \<or> evs = evs2 \<or> evs = evs2 @ [Upload sarifFolder])"
          by (auto split: option.splits if_splits)
        then consider "env' = env2" "evs = evs0 @ ([MkdirP sarifFolder] @ t1)"
          | "env' = env2" "evs = evs0 @ ([MkdirP sarifFolder] @ t1 @ t2)"
          | "env' = env2" "evs = evs0 @ ([MkdirP sarifFolder] @ t1 @ t2 @ [Upload sarifFolder])"
          using t1(1) t2(1) by auto
        then show ?thesis
        proof cases
          case 1
          then show ?thesis by (rule goal) (use t1(2) in auto)
        next
          case 2
          then show ?thesis by (rule goal) (use t1(2) t2(2) in auto)
        next
          case 3
          then show ?thesis by (rule goal) (use t1(2) t2(2) in auto)
        qed
      qed
    qed
  qed
qed
















section \<open>The claims\<close>








text \<open>
  C6 (as the specification states it, refuted): decoding the blob gives back every merged
  environment. The variable name \<^verbatim>\<open>A=B\<close> with value \<^verbatim>\<open>c\<close> and the name \<^verbatim>\<open>A\<close> with value
  \<^verbatim>\<open>B=c\<close> are written as the same bytes, so no reader tells them apart; the reader of the
  specification returns the second.
\<close>

theorem blob_round_trip_counterexample:
  "fst (concatTracerConfigs ''/w'' scenarioFiles [(''java'', \<lparr>spec = Some ''/db/java/spec'', env = [(''A=B'', ''c'')]\<rparr>)])
     = Inr \<lparr>spec = Some ''/w/compound-spec'', env = [(''A=B'', ''c'')]\<rparr>
   \<and> snd (concatTracerConfigs ''/w'' scenarioFiles [(''java'', \<lparr>spec = Some ''/db/java/spec'', env = [(''A=B'', ''c'')]\<rparr>)])
        ''/w/compound-spec.environment''
     = snd (concatTracerConfigs ''/w'' scenarioFiles [(''java'', \<lparr>spec = Some ''/db/java/spec'', env = [(''A'', ''B=c'')]\<rparr>)])
        ''/w/compound-spec.environment''
   \<and> snd (concatTracerConfigs ''/w'' scenarioFiles [(''java'', \<lparr>spec = Some ''/db/java/spec'', env = [(''A=B'', ''c'')]\<rparr>)])
        ''/w/compound-spec.environment''
     = File [CHR 0x01, CHR 0x00, CHR 0x00, CHR 0x00, CHR 0x06, CHR 0x00, CHR 0x00, CHR 0x00,
             CHR ''A'', CHR ''='', CHR ''B'', CHR ''='', CHR ''c'', CHR 0x00]
   \<and> decodeEnvironment [CHR 0x01, CHR 0x00, CHR 0x00, CHR 0x00, CHR 0x06, CHR 0x00, CHR 0x00, CHR 0x00,
             CHR ''A'', CHR ''='', CHR ''B'', CHR ''='', CHR ''c'', CHR 0x00]
     = Some [(''A'', ''B=c'')]"
  by code_simp

text \<open>
  C6 (amended): whenever the aggregator succeeds and no merged variable name contains
  the character \<^verbatim>\<open>=\<close>, the blob it wrote decodes (4-byte little-endian count, then for
  each entry a 4-byte little-endian length and that many bytes \<^verbatim>\<open>key=value\0\<close>) to exactly
  the merged entries, hence to the merged mapping.
\<close>

theorem blob_round_trip:
  assumes s: "concatTracerConfigs ws fs configs = (Inr r, fs')"
    and k: "\<forall>(key, val) \<in> set (env r). CHR ''='' \<notin> set key"
  shows "\<exists>blob. fs' (envPath ws) = File blob
           \<and> decodeEnvironment blob = Some (env r)
           \<and> map_option map_of (decodeEnvironment blob) = Some (map_of (env r))"
proof -
  from concat_success[OF s] obtain merged envSize totalLines totalCount buffer where
    m: "mergeConfigs ([], 0) (map snd configs) = Inr (merged, envSize)" and
    en: "encodeEnvironment envSize merged = Inr buffer" and
    f: "fs' = fs(compoundSpec ws := File (joinLines (newLogFilePath ws # numberToString totalCount # totalLines)),
                envPath ws := File buffer)" and
    r: "r = \<lparr>spec = Some (compoundSpec ws), env = merged\<rparr>"
    by blast
  from mergeConfigs_Inr[OF m] have "envSize = length merged" by simp
  with en have "encodeEnvironment (length merged) merged = Inr buffer" by simp
  moreover from k r have "\<forall>(key, val) \<in> set merged. CHR ''='' \<notin> set key" by simp
  ultimately have "decodeEnvironment buffer = Some merged"
    by (rule encodeEnvironment_decode)
  with f r show ?thesis by simp
qed

theorem blob_round_trip_witness:
  "fst (concatTracerConfigs ''/w'' scenarioFiles [(''java'', langA), (''cpp'', langB)])
     = Inr \<lparr>spec = Some ''/w/compound-spec'', env = [(''X'', ''1''), (''Y'', ''2'')]\<rparr>
   \<and> CHR ''='' \<notin> set ''X'' \<and> CHR ''='' \<notin> set ''Y''
   \<and> (\<exists>blob. snd (concatTracerConfigs ''/w'' scenarioFiles [(''java'', langA), (''cpp'', langB)]) (envPath ''/w'')
                = File blob
         \<and> decodeEnvironment blob = Some [(''X'', ''1''), (''Y'', ''2'')])"
proof -
  have f: "fst (concatTracerConfigs ''/w'' scenarioFiles [(''java'', langA), (''cpp'', langB)])
     = Inr \<lparr>spec = Some ''/w/compound-spec'', env = [(''X'', ''1''), (''Y'', ''2'')]\<rparr>"
    by code_simp
  then have s: "concatTracerConfigs ''/w'' scenarioFiles [(''java'', langA), (''cpp'', langB)]
     = (Inr \<lparr>spec = Some ''/w/compound-spec'', env = [(''X'', ''1''), (''Y'', ''2'')]\<rparr>,
        snd (concatTracerConfigs ''/w'' scenarioFiles [(''java'', langA), (''cpp'', langB)]))"
    by (metis prod.collapse)
  have k: "\<forall>(key, val) \<in> set (env \<lparr>spec = Some ''/w/compound-spec'', env = [(''X'', ''1''), (''Y'', ''2'')]\<rparr>).
             CHR ''='' \<notin> set key"
    by simp
  from blob_round_trip[OF s k] have "\<exists>blob. snd (concatTracerConfigs ''/w'' scenarioFiles [(''java'', langA), (''cpp'', langB)]) (envPath ''/w'')
                = File blob
         \<and> decodeEnvironment blob = Some [(''X'', ''1''), (''Y'', ''2'')]"
    by auto
  with f show ?thesis by simp
qed







text \<open>
  C10: called with the empty mapping (and writable paths), the aggregator writes a
  compound spec file that declares the count 0 and a blob that is the entry count 0, and
  returns the empty merged environment with the compound spec path; with no traced
  language it is the guard of the caller that writes no file and calls nothing.
\<close>

theorem empty_input_writes_files:
  assumes "fs (compoundSpec ws) \<noteq> Blocked" and "fs (envPath ws) \<noteq> Blocked"
  shows "concatTracerConfigs ws fs []
           = (Inr \<lparr>spec = Some (compoundSpec ws), env = []\<rparr>,
              fs(compoundSpec ws := File (joinLines [newLogFilePath ws, ''0'']),
                 envPath ws := File [CHR 0x00, CHR 0x00, CHR 0x00, CHR 0x00]))
       \<and> publishTracer w fs [] = (None, fs, [])"
proof -
  have w1: "writeFileSync fs (compoundSpec ws) c = Inr (fs(compoundSpec ws := File c))" for c
    using assms(1) by (cases "fs (compoundSpec ws)") (simp_all add: writeFileSync_def)
  have w2: "writeFileSync (fs(compoundSpec ws := File c)) (envPath ws) b
              = Inr (fs(compoundSpec ws := File c, envPath ws := File b))" for c b
    using assms(2) envPath_neq[of ws]
    by (cases "fs (envPath ws)") (simp_all add: writeFileSync_def)
  have n: "numberToString (Some 0) = ''0''" by code_simp
  have e: "encodeEnvironment 0 [] = Inr [CHR 0x00, CHR 0x00, CHR 0x00, CHR 0x00]"
    by code_simp
  have l: "languageOrder [] = []" by (simp add: languageOrder_def)
  show ?thesis
    by (simp add: concatTracerConfigs_def publishTracer_def l n e w1 w2)
qed

theorem empty_input_writes_files_witness:
  "noFiles (compoundSpec ''/w'') \<noteq> Blocked \<and> noFiles (envPath ''/w'') \<noteq> Blocked
   \<and> fst (concatTracerConfigs ''/w'' noFiles []) = Inr \<lparr>spec = Some (compoundSpec ''/w''), env = []\<rparr>
   \<and> snd (concatTracerConfigs ''/w'' noFiles []) (compoundSpec ''/w'') = File ''/w/compound-build-tracer.log\<newline>0''
   \<and> snd (concatTracerConfigs ''/w'' noFiles []) (envPath ''/w'') = File [CHR 0x00, CHR 0x00, CHR 0x00, CHR 0x00]"
proof -
  have a: "noFiles (compoundSpec ''/w'') \<noteq> Blocked" "noFiles (envPath ''/w'') \<noteq> Blocked"
    by (simp_all add: noFiles_def)
  from empty_input_writes_files[OF a] a envPath_neq[of "''/w''"] show ?thesis
    by (simp add: newLogFilePath_def)
qed




text \<open>
  C8: when none of the languages is a traced language, whatever the outcome of the init
  action, the aggregator is not called, the file system is as before (no compound spec
  file, no blob) and \<^verbatim>\<open>ODASA_TRACER_CONFIGURATION\<close> is not exported.
\<close>

theorem no_traced_language_no_compound:
  assumes "\<forall>l \<in> set languages. l \<notin> set [''cpp'', ''java'', ''csharp'']"
    and "run_init w processEnv fs languages = (st, fs', evs)"
  shows "fs' = fs \<and> Aggregate \<notin> set evs
       \<and> (\<forall>v. ExportVariable ''ODASA_TRACER_CONFIGURATION'' v \<notin> set evs)"
proof -
  define dbf where "dbf = workspaceFolder w @ ''/codeql_results/db''"
  note il = initLanguages_untraced[OF assms(1), where w = w and processEnv = processEnv
      and databaseFolder = dbf and tracedLanguages = "[]" and scannedLanguages = "[]" and evs = "[MkdirP dbf]"]
  have p: "publishTracer w fs [] = (None, fs, [])"
    by (simp add: publishTracer_def)
  show ?thesis
  proof (cases "abort w \<or> languages = [] \<or> fails w (MkdirP dbf)")
    case True
    with assms(2) show ?thesis
      by (auto simp: run_init_def Let_def dbf_def split: if_splits)
  next
    case False
    show ?thesis
    proof (cases "initLanguages w processEnv dbf languages ([], [], [MkdirP dbf])")
      case (Inl a)
      obtain e evs' where a: "a = (e, evs')" by (cases a)
      from il Inl a have "set evs' \<subseteq> set [MkdirP dbf] \<union> range DatabaseInit" by simp
      moreover from assms(2) False Inl a have "fs' = fs" "evs = evs'"
        by (simp_all add: run_init_def Let_def dbf_def[symmetric])
      ultimately show ?thesis by auto
    next
      case (Inr b)
      obtain tr sc evs' where b: "b = (tr, sc, evs')" by (cases b)
      from il Inr b have t: "tr = []" and e: "set evs' \<subseteq> set [MkdirP dbf] \<union> range DatabaseInit" by simp_all
      from assms(2) False Inr b t p have "fs' = fs"
        "evs = evs' @ [ExportVariable ''CODEQL_ACTION_SCANNED_LANGUAGES'' (joinComma sc)]
                 @ [] @ [ExportVariable ''CODEQL_ACTION_RESULTS'' (workspaceFolder w @ ''/codeql_results''),
                         ExportVariable ''CODEQL_ACTION_CMD'' (codeqlCmd w)]"
        by (simp_all add: run_init_def Let_def dbf_def[symmetric])
      with e show ?thesis by auto
    qed
  qed
qed

theorem no_traced_language_no_compound_witness:
  "''javascript'' \<notin> set [''cpp'', ''java'', ''csharp''] \<and> ''python'' \<notin> set [''cpp'', ''java'', ''csharp'']
   \<and> fst (run_init quietWorld ambientEnv noFiles [''javascript'', ''python'']) = Succeeded
   \<and> fst (snd (run_init quietWorld ambientEnv noFiles [''javascript'', ''python''])) = noFiles
   \<and> Aggregate \<notin> set (snd (snd (run_init quietWorld ambientEnv noFiles [''javascript'', ''python''])))
   \<and> snd (snd (run_init quietWorld ambientEnv noFiles [''javascript'', ''python'']))
       = [MkdirP ''/w/codeql_results/db'',
          DatabaseInit ''/w/codeql_results/db/javascript'',
          DatabaseInit ''/w/codeql_results/db/python'',
          ExportVariable ''CODEQL_ACTION_SCANNED_LANGUAGES'' ''javascript,python'',
          ExportVariable ''CODEQL_ACTION_RESULTS'' ''/w/codeql_results'',
          ExportVariable ''CODEQL_ACTION_CMD'' ''/opt/codeql/codeql'']"
proof -
  have h: "\<forall>l \<in> set [''javascript'', ''python'']. l \<notin> set [''cpp'', ''java'', ''csharp'']"
    by simp
  have s: "fst (run_init quietWorld ambientEnv noFiles [''javascript'', ''python'']) = Succeeded"
    by code_simp
  have e: "snd (snd (run_init quietWorld ambientEnv noFiles [''javascript'', ''python'']))
       = [MkdirP ''/w/codeql_results/db'',
          DatabaseInit ''/w/codeql_results/db/javascript'',
          DatabaseInit ''/w/codeql_results/db/python'',
          ExportVariable ''CODEQL_ACTION_SCANNED_LANGUAGES'' ''javascript,python'',
          ExportVariable ''CODEQL_ACTION_RESULTS'' ''/w/codeql_results'',
          ExportVariable ''CODEQL_ACTION_CMD'' ''/opt/codeql/codeql'']"
    by code_simp
  have r: "run_init quietWorld ambientEnv noFiles [''javascript'', ''python'']
     = (fst (run_init quietWorld ambientEnv noFiles [''javascript'', ''python'']),
        fst (snd (run_init quietWorld ambientEnv noFiles [''javascript'', ''python''])),
        snd (snd (run_init quietWorld ambientEnv noFiles [''javascript'', ''python''])))"
    by simp
  from no_traced_language_no_compound[OF h r] s e show ?thesis by simp
qed

text \<open>
  C9 (as the specification states it, refuted): \<^verbatim>\<open>ODASA_TRACER_CONFIGURATION\<close> is unset only
  after database finalization and query analysis have run. In a successful run of the
  finish action the variable is deleted as the third call, before the database is
  finalized and analysed.
\<close>

theorem cleared_after_analysis_counterexample:
  "finishEnv ''ODASA_TRACER_CONFIGURATION'' = Some ''/w/compound-spec''
   \<and> fst (run_finish quietWorld finishEnv) = Succeeded
   \<and> snd (snd (run_finish quietWorld finishEnv))
       = [LoadConfig,
          ExportVariable ''ODASA_TRACER_CONFIGURATION'' [],
          DeleteEnv ''ODASA_TRACER_CONFIGURATION'',
          MkdirP ''/w/sarif'',
          DatabaseFinalize ''/w/codeql_results/db/java'',
          DatabaseAnalyze ''/w/codeql_results/db/java'']"
  by code_simp

text \<open>
  C9 (amended): every run of the finish action that succeeds, or that reaches a call of
  database finalization or of query analysis, has exported the empty value for
  \<^verbatim>\<open>ODASA_TRACER_CONFIGURATION\<close> and deleted the variable right after loading the
  configuration, before all those calls; it does not delete the variable again, and the
  variable is unset when the run ends.
\<close>

theorem tracer_variable_cleared_first:
  assumes "run_finish w processEnv = (st, env', evs)"
    and "st = Succeeded \<or> (\<exists>ev \<in> set evs. stageEvent ev)"
  shows "\<exists>rest. evs = [LoadConfig, ExportVariable ''ODASA_TRACER_CONFIGURATION'' [],
                        DeleteEnv ''ODASA_TRACER_CONFIGURATION''] @ rest
              \<and> (\<forall>ev \<in> set evs. stageEvent ev \<longrightarrow> ev \<in> set rest)
              \<and> DeleteEnv ''ODASA_TRACER_CONFIGURATION'' \<notin> set rest
              \<and> env' ''ODASA_TRACER_CONFIGURATION'' = None"
proof -
  from run_finish_shape[OF assms(1)] assms(2)
  obtain rest where r: "evs = [LoadConfig, ExportVariable ''ODASA_TRACER_CONFIGURATION'' [],
                           DeleteEnv ''ODASA_TRACER_CONFIGURATION''] @ rest"
      "\<forall>ev \<in> set rest. \<forall>n. ev \<noteq> DeleteEnv n"
      "env' = processEnv(''ODASA_TRACER_CONFIGURATION'' := None)"
    by auto
  have "\<forall>ev \<in> set evs. stageEvent ev \<longrightarrow> ev \<in> set rest"
    unfolding r(1) by auto
  moreover have "DeleteEnv ''ODASA_TRACER_CONFIGURATION'' \<notin> set rest"
    using r(2) by blast
  ultimately show ?thesis using r(1,3) by simp
qed

theorem tracer_variable_cleared_first_witness:
  "fst (run_finish quietWorld finishEnv) = Succeeded
   \<and> stageEvent (DatabaseAnalyze ''/w/codeql_results/db/java'')
   \<and> DatabaseAnalyze ''/w/codeql_results/db/java'' \<in> set (snd (snd (run_finish quietWorld finishEnv)))
   \<and> (\<exists>rest. snd (snd (run_finish quietWorld finishEnv))
                = [LoadConfig, ExportVariable ''ODASA_TRACER_CONFIGURATION'' [],
                   DeleteEnv ''ODASA_TRACER_CONFIGURATION''] @ rest
             \<and> DatabaseAnalyze ''/w/codeql_results/db/java'' \<in> set rest
             \<and> DeleteEnv ''ODASA_TRACER_CONFIGURATION'' \<notin> set rest)
   \<and> fst (snd (run_finish quietWorld finishEnv)) ''ODASA_TRACER_CONFIGURATION'' = None"
proof -
  have s: "fst (run_finish quietWorld finishEnv) = Succeeded"
    by code_simp
  have m: "DatabaseAnalyze ''/w/codeql_results/db/java'' \<in> set (snd (snd (run_finish quietWorld finishEnv)))"
    by code_simp
  have r: "run_finish quietWorld finishEnv
     = (fst (run_finish quietWorld finishEnv), fst (snd (run_finish quietWorld finishEnv)),
        snd (snd (run_finish quietWorld finishEnv)))"
    by simp
  have h: "fst (run_finish quietWorld finishEnv) = Succeeded
     \<or> (\<exists>ev \<in> set (snd (snd (run_finish quietWorld finishEnv))). stageEvent ev)"
    using s by simp
  from tracer_variable_cleared_first[OF r h] m s show ?thesis
    by auto
qed

end
